theory Spec2Isabelle
  imports Complex_Main "HOL-Library.Sublist"
begin

section \<open>Strings, whitespace and the statement patterns\<close>

text \<open>
  Go strings are modelled as \<^typ>\<open>string\<close>; a \<^typ>\<open>char\<close> stands for one code point
  below 256. \<open>strings.TrimSpace\<close> removes leading and trailing white space as defined by
  \<open>unicode.IsSpace\<close>, which in this range is tab, line feed, vertical tab, form feed,
  carriage return, space, U+0085 and U+00A0.
\<close>

definition isSpace :: "char \<Rightarrow> bool" where
  "isSpace c = (c \<in> {CHR 0x09, CHR 0x0A, CHR 0x0B, CHR 0x0C, CHR 0x0D, CHR 0x20, CHR 0x85, CHR 0xA0})"

definition TrimSpace :: "string \<Rightarrow> string" where
  "TrimSpace s = rev (dropWhile isSpace (rev (dropWhile isSpace s)))"

text \<open>
  The character classes of Go's \<open>regexp\<close> (RE2 syntax): \<open>\s\<close> is \<open>[\t\n\f\r ]\<close>,
  \<open>\w\<close> is \<open>[0-9A-Za-z_]\<close>, and \<open>.\<close> is any character but line feed.
\<close>

definition reS :: "char \<Rightarrow> bool" where
  "reS c = (c \<in> {CHR 0x09, CHR 0x0A, CHR 0x0C, CHR 0x0D, CHR 0x20})"

definition reW :: "char \<Rightarrow> bool" where
  "reW c = (let n = (of_char c :: nat) in
     (48 \<le> n \<and> n \<le> 57) \<or> (65 \<le> n \<and> n \<le> 90) \<or> (97 \<le> n \<and> n \<le> 122) \<or> n = 95)"

definition reDot :: "char \<Rightarrow> bool" where
  "reDot c = (c \<noteq> CHR 0x0A)"

text \<open>The common tail \<open>\s*:?\s*$\<close> of the three patterns, matched against a whole rest.\<close>

definition reTail :: "string \<Rightarrow> bool" where
  "reTail s = (let s1 = dropWhile reS s;
                   s2 = (case s1 of c # cs \<Rightarrow> if c = CHR '':'' then cs else s1 | [] \<Rightarrow> s1)
               in dropWhile reS s2 = [])"

text \<open>
  The lazy group \<open>(.+?)\<close> followed by the tail: the shortest non-empty run of \<open>.\<close>
  after which the tail matches. \<open>acc\<close> is the part of the group read so far.
\<close>

fun reLazy :: "string \<Rightarrow> string \<Rightarrow> string option" where
  "reLazy acc [] = None"
| "reLazy acc (c # cs) =
     (if \<not> reDot c then None
      else if reTail cs then Some (acc @ [c])
      else reLazy (acc @ [c]) cs)"

text \<open>
  \<open>\s+(.+?)\s*:?\s*$\<close>: the greedy \<open>\s+\<close> first takes the whole run of white space and
  gives characters back one at a time (never the first) while the rest fails to match;
  \<open>k\<close> counts the characters it may still give back.
\<close>

fun reBacktrack :: "nat \<Rightarrow> string \<Rightarrow> string option" where
  "reBacktrack 0 r = reLazy [] r"
| "reBacktrack (Suc k) r =
     (case reLazy [] (drop (Suc k) r) of
        Some g \<Rightarrow> Some g
      | None \<Rightarrow> reBacktrack k r)"

definition reSpacesGroup :: "string \<Rightarrow> string option" where
  "reSpacesGroup r =
     (let n = length (takeWhile reS r)
      in if n = 0 then None else reBacktrack (n - 1) (drop 1 r))"

text \<open>
  \<open>forPattern = ^for\s+(\w+)\s+in\s+(.+?)\s*:?\s*$\<close>. The classes \<open>\s\<close> and \<open>\w\<close> are
  disjoint and \<open>i\<close> is not white space, so the first two \<open>\s+\<close> and the \<open>\w+\<close> can only
  take their whole runs. The result is the list of the two groups.
\<close>

definition forPattern :: "string \<Rightarrow> (string \<times> string) option" where
  "forPattern v =
     (if take 3 v \<noteq> ''for'' then None
      else let r1 = drop 3 v; r2 = dropWhile reS r1;
               w = takeWhile reW r2; r3 = dropWhile reW r2; r4 = dropWhile reS r3
           in if takeWhile reS r1 = [] \<or> w = [] \<or> takeWhile reS r3 = [] \<or> take 2 r4 \<noteq> ''in''
              then None
              else (case reSpacesGroup (drop 2 r4) of
                      None \<Rightarrow> None
                    | Some g \<Rightarrow> Some (w, g)))"

text \<open>\<open>ifPattern = ^if\s+(.+?)\s*:?\s*$\<close> and \<open>elifPattern = ^elif\s+(.+?)\s*:?\s*$\<close>.\<close>

definition ifPattern :: "string \<Rightarrow> string option" where
  "ifPattern v = (if take 2 v \<noteq> ''if'' then None else reSpacesGroup (drop 2 v))"

definition elifPattern :: "string \<Rightarrow> string option" where
  "elifPattern v = (if take 4 v \<noteq> ''elif'' then None else reSpacesGroup (drop 4 v))"

section \<open>Tokens and statements\<close>

record Position =
  File :: string
  Line :: nat
  Column :: nat

datatype TokenType = TokenText | TokenExpr | TokenStmt | TokenEOF

record Token =
  Type :: TokenType
  Value :: string
  Pos :: Position

datatype StmtKind = StmtUnknown | StmtFor | StmtEndFor | StmtIf | StmtElif | StmtElse | StmtEndIf

record StmtNode =
  pos :: Position
  Kind :: StmtKind
  VarName :: string
  Expr :: string

datatype LexErrorKind = UnclosedExpr | UnclosedStmt

text \<open>
  The errors of the template package. A render error may wrap the evaluation error that
  caused it (file, line, expression, message).
\<close>

datatype EvalError = EvalError string nat string string

datatype Error =
    LexError Position LexErrorKind
  | ParseError Position string
  | UnmatchedBlockError Position StmtKind
  | RenderError Position string "EvalError option"

text \<open>The zero values of Go: \<open>Token{Type: TokenEOF}\<close> has an empty value and position.\<close>

definition zeroPos :: Position where
  "zeroPos = \<lparr>File = [], Line = 0, Column = 0\<rparr>"

definition peekStmtKind :: "string \<Rightarrow> StmtKind" where
  "peekStmtKind value0 =
     (let v = TrimSpace value0
      in if v = ''endfor'' then StmtEndFor
         else if v = ''endif'' then StmtEndIf
         else if v = ''else'' \<or> v = ''else:'' then StmtElse
         else if forPattern v \<noteq> None then StmtFor
         else if ifPattern v \<noteq> None then StmtIf
         else if elifPattern v \<noteq> None then StmtElif
         else StmtUnknown)"

text \<open>
  \<open>parseStmt\<close> reads the statement of a token and advances the parser by one token. The
  parser's position is passed in and returned; on an error the parser has not moved.
\<close>

definition parseStmt :: "Token \<Rightarrow> nat \<Rightarrow> Error + (StmtNode \<times> nat)" where
  "parseStmt tok p =
     (let v = TrimSpace (Value tok)
      in if v = ''endfor''
         then Inr (\<lparr>pos = Pos tok, Kind = StmtEndFor, VarName = [], Expr = []\<rparr>, p + 1)
         else if v = ''endif''
         then Inr (\<lparr>pos = Pos tok, Kind = StmtEndIf, VarName = [], Expr = []\<rparr>, p + 1)
         else if v = ''else'' \<or> v = ''else:''
         then Inr (\<lparr>pos = Pos tok, Kind = StmtElse, VarName = [], Expr = []\<rparr>, p + 1)
         else (case forPattern v of
                 Some (g1, g2) \<Rightarrow>
                   Inr (\<lparr>pos = Pos tok, Kind = StmtFor, VarName = g1, Expr = g2\<rparr>, p + 1)
               | None \<Rightarrow>
           (case ifPattern v of
                 Some g1 \<Rightarrow>
                   Inr (\<lparr>pos = Pos tok, Kind = StmtIf, VarName = [], Expr = g1\<rparr>, p + 1)
               | None \<Rightarrow>
           (case elifPattern v of
                 Some g1 \<Rightarrow>
                   Inr (\<lparr>pos = Pos tok, Kind = StmtElif, VarName = [], Expr = g1\<rparr>, p + 1)
               | None \<Rightarrow>
                   Inl (ParseError (Pos tok) (''invalid statement syntax: '' @ v))))))"

text \<open>Whether a statement text already ends in a colon.\<close>

definition hasTrailingColon :: "string \<Rightarrow> bool" where
  "hasTrailingColon v = (v \<noteq> [] \<and> last v = CHR '':'')"

text \<open>
  A statement text is \<open>good\<close> when it is not empty and its last character is neither
  white space of the patterns nor a colon.
\<close>

definition good :: "string \<Rightarrow> bool" where
  "good s = (s \<noteq> [] \<and> \<not> reS (last s) \<and> last s \<noteq> CHR '':'')"

section \<open>The template parser\<close>

text \<open>
  The AST. A nil slice of nodes and an empty one are both the empty list: \<open>parseNodes\<close>
  returns nil when it has appended nothing, so the \<open>Else\<close> field of an \<open>if\<close> block is
  nil both without an \<open>else\<close> and with an empty one, and the renderer treats both alike.
\<close>

datatype Node =
    TextNode Position string
  | ExprNode Position string
  | ForBlock Position string string "Node list"
  | IfBlock Position string "Node list" "Branch list" "Node list"
and Branch = Branch string "Node list" Position

record Template =
  Nodes :: "Node list"
  TFile :: string

definition current :: "Token list \<Rightarrow> nat \<Rightarrow> Token" where
  "current ts p = (if p \<ge> length ts then \<lparr>Type = TokenEOF, Value = [], Pos = zeroPos\<rparr> else ts ! p)"

definition containsKind :: "StmtKind list \<Rightarrow> StmtKind \<Rightarrow> bool" where
  "containsKind kinds k = (k \<in> set kinds)"

text \<open>Whether the parser stands at the end of the input: \<open>p.pos >= len(p.tokens) || p.current().Type == TokenEOF\<close>.\<close>

definition atEnd :: "Token list \<Rightarrow> nat \<Rightarrow> bool" where
  "atEnd ts p = (p \<ge> length ts \<or> Type (current ts p) = TokenEOF)"

text \<open>
  The recursive descent. The token list \<open>ts\<close> is fixed, the position \<open>p\<close> is passed in
  and returned. The first argument is fuel: every call and every loop iteration uses one
  unit, and \<open>None\<close> means that the fuel ran out. \<open>parseNodes\<close> carries the nodes appended
  so far; \<open>parseIfChain\<close> is the loop of \<open>parseIfBlock\<close> over the \<open>elif\<close>/\<open>else\<close>/\<open>endif\<close>
  chain and carries the branches appended so far.
\<close>

function (sequential) parseNodes :: "nat \<Rightarrow> Token list \<Rightarrow> StmtKind list \<Rightarrow> nat \<Rightarrow> Node list \<Rightarrow> (Error + Node list \<times> nat) option"
and parseForBlock :: "nat \<Rightarrow> Token list \<Rightarrow> StmtNode \<Rightarrow> nat \<Rightarrow> (Error + Node \<times> nat) option"
and parseIfBlock :: "nat \<Rightarrow> Token list \<Rightarrow> StmtNode \<Rightarrow> nat \<Rightarrow> (Error + Node \<times> nat) option"
and parseIfChain :: "nat \<Rightarrow> Token list \<Rightarrow> StmtNode \<Rightarrow> Node list \<Rightarrow> Branch list \<Rightarrow> nat \<Rightarrow> (Error + Node \<times> nat) option"
where
  "parseNodes 0 ts stopOn p nodes = None"
| "parseNodes (Suc f) ts stopOn p nodes =
     (if \<not> p < length ts then Some (Inr (nodes, p))
      else let tok = current ts p in
        (case Type tok of
           TokenEOF \<Rightarrow> Some (Inr (nodes, p))
         | TokenText \<Rightarrow> parseNodes f ts stopOn (p + 1) (nodes @ [TextNode (Pos tok) (Value tok)])
         | TokenExpr \<Rightarrow> parseNodes f ts stopOn (p + 1) (nodes @ [ExprNode (Pos tok) (Value tok)])
         | TokenStmt \<Rightarrow>
             if containsKind stopOn (peekStmtKind (Value tok)) then Some (Inr (nodes, p))
             else (case parseStmt tok p of
                     Inl err \<Rightarrow> Some (Inl err)
                   | Inr (stmt, p1) \<Rightarrow>
                       (case Kind stmt of
                          StmtFor \<Rightarrow>
                            (case parseForBlock f ts stmt p1 of
                               None \<Rightarrow> None
                             | Some (Inl err) \<Rightarrow> Some (Inl err)
                             | Some (Inr (block, p2)) \<Rightarrow> parseNodes f ts stopOn p2 (nodes @ [block]))
                        | StmtIf \<Rightarrow>
                            (case parseIfBlock f ts stmt p1 of
                               None \<Rightarrow> None
                             | Some (Inl err) \<Rightarrow> Some (Inl err)
                             | Some (Inr (block, p2)) \<Rightarrow> parseNodes f ts stopOn p2 (nodes @ [block]))
                        | StmtUnknown \<Rightarrow>
                            Some (Inl (ParseError (Pos tok) (''unexpected statement: '' @ Value tok)))
                        | _ \<Rightarrow> Some (Inl (UnmatchedBlockError (Pos tok) (Kind stmt)))))))"
| "parseForBlock 0 ts stmt p = None"
| "parseForBlock (Suc f) ts stmt p =
     (case parseNodes f ts [StmtEndFor] p [] of
        None \<Rightarrow> None
      | Some (Inl err) \<Rightarrow> Some (Inl err)
      | Some (Inr (body, p1)) \<Rightarrow>
          if atEnd ts p1 then Some (Inl (UnmatchedBlockError (pos stmt) StmtFor))
          else let endTok = current ts p1 in
            if Type endTok \<noteq> TokenStmt then Some (Inl (UnmatchedBlockError (pos stmt) StmtFor))
            else (case parseStmt endTok p1 of
                    Inl err \<Rightarrow> Some (Inl err)
                  | Inr (endStmt, p2) \<Rightarrow>
                      if Kind endStmt \<noteq> StmtEndFor
                      then Some (Inl (UnmatchedBlockError (pos stmt) StmtFor))
                      else Some (Inr (ForBlock (pos stmt) (VarName stmt) (Expr stmt) body, p2))))"
| "parseIfBlock 0 ts stmt p = None"
| "parseIfBlock (Suc f) ts stmt p =
     (case parseNodes f ts [StmtElif, StmtElse, StmtEndIf] p [] of
        None \<Rightarrow> None
      | Some (Inl err) \<Rightarrow> Some (Inl err)
      | Some (Inr (body, p1)) \<Rightarrow> parseIfChain f ts stmt body [] p1)"
| "parseIfChain 0 ts stmt body elifs p = None"
| "parseIfChain (Suc f) ts stmt body elifs p =
     (if \<not> (p < length ts \<and> Type (current ts p) \<noteq> TokenEOF)
      then Some (Inl (UnmatchedBlockError (pos stmt) StmtIf))
      else let tok = current ts p in
        if Type tok \<noteq> TokenStmt then Some (Inl (UnmatchedBlockError (pos stmt) StmtIf))
        else (case parseStmt tok p of
                Inl err \<Rightarrow> Some (Inl err)
              | Inr (nextStmt, p1) \<Rightarrow>
                  (case Kind nextStmt of
                     StmtEndIf \<Rightarrow> Some (Inr (IfBlock (pos stmt) (Expr stmt) body elifs [], p1))
                   | StmtElif \<Rightarrow>
                       (case parseNodes f ts [StmtElif, StmtElse, StmtEndIf] p1 [] of
                          None \<Rightarrow> None
                        | Some (Inl err) \<Rightarrow> Some (Inl err)
                        | Some (Inr (elifBody, p2)) \<Rightarrow>
                            parseIfChain f ts stmt body
                              (elifs @ [Branch (Expr nextStmt) elifBody (pos nextStmt)]) p2)
                   | StmtElse \<Rightarrow>
                       (case parseNodes f ts [StmtEndIf] p1 [] of
                          None \<Rightarrow> None
                        | Some (Inl err) \<Rightarrow> Some (Inl err)
                        | Some (Inr (elseBody, p2)) \<Rightarrow>
                            if atEnd ts p2 then Some (Inl (UnmatchedBlockError (pos stmt) StmtIf))
                            else (case parseStmt (current ts p2) p2 of
                                    Inl err \<Rightarrow> Some (Inl err)
                                  | Inr (endStmt, p3) \<Rightarrow>
                                      if Kind endStmt \<noteq> StmtEndIf
                                      then Some (Inl (UnmatchedBlockError (pos stmt) StmtIf))
                                      else Some (Inr (IfBlock (pos stmt) (Expr stmt) body elifs elseBody, p3))))
                   | _ \<Rightarrow> Some (Inl (UnmatchedBlockError (pos stmt) StmtIf)))))"
  by pat_completeness auto
termination
  by (relation "measure (\<lambda>x. case x of
         Inl (Inl (f, _)) \<Rightarrow> f
       | Inl (Inr (f, _)) \<Rightarrow> f
       | Inr (Inl (f, _)) \<Rightarrow> f
       | Inr (Inr (f, _)) \<Rightarrow> f)") auto

text \<open>
  \<open>Parse\<close> starts at position 0 with nothing stopping it. Two units of fuel for each token
  and two more are given: a block statement uses one unit to enter the block and one to
  start its body, and every other step moves by at least one token.
\<close>

definition Parse :: "Token list \<Rightarrow> string \<Rightarrow> (Error + Template) option" where
  "Parse ts file =
     (case parseNodes (2 * length ts + 2) ts [] 0 [] of
        None \<Rightarrow> None
      | Some (Inl err) \<Rightarrow> Some (Inl err)
      | Some (Inr (nodes, p)) \<Rightarrow> Some (Inr \<lparr>Nodes = nodes, TFile = file\<rparr>))"


definition plainNode :: "Token \<Rightarrow> Node" where
  "plainNode t = (if Type t = TokenText then TextNode (Pos t) (Value t) else ExprNode (Pos t) (Value t))"


section \<open>The template lexer\<close>

text \<open>
  Modelled from the spec: the lexer's source (\<open>lexer.go\<close>) is not part of the sources at
  hand; only its tests are. The model follows section 4.6 of the specification: text runs
  up to the next \<open>{{\<close> or \<open>{*\<close>; inside \<open>{{ ... }}\<close> and \<open>{* ... *}\<close> unmatched braces are
  counted, and the closing delimiter is recognised at depth 0; the value of an \<open>EXPR\<close> or
  \<open>STMT\<close> token is the trimmed text between the delimiters; every token carries the
  1-based line and column of its start; an \<open>EOF\<close> token ends the list; a delimiter that
  is still open at the end of the input is a \<open>LexError\<close>. Empty text runs give no token.
\<close>

datatype LexMode = InText | InExpr nat | InStmt nat

definition advance :: "char \<Rightarrow> nat \<times> nat \<Rightarrow> nat \<times> nat" where
  "advance c lc = (if c = CHR 0x0A then (fst lc + 1, 1) else (fst lc, snd lc + 1))"

definition mkPos :: "string \<Rightarrow> nat \<times> nat \<Rightarrow> Position" where
  "mkPos file lc = \<lparr>File = file, Line = fst lc, Column = snd lc\<rparr>"

definition textToken :: "string \<Rightarrow> nat \<times> nat \<Rightarrow> string \<Rightarrow> Token list" where
  "textToken file start buf =
     (if buf = [] then [] else [\<lparr>Type = TokenText, Value = buf, Pos = mkPos file start\<rparr>])"

definition opensWith :: "char \<Rightarrow> char \<Rightarrow> string \<Rightarrow> bool" where
  "opensWith a b s = (case s of c # d # _ \<Rightarrow> c = a \<and> d = b | _ \<Rightarrow> False)"

text \<open>
  \<open>lexRun file mode start buf lc input\<close>: \<open>start\<close> is the line and column where the
  current token began, \<open>buf\<close> its text so far, \<open>lc\<close> the line and column of the next
  character of \<open>input\<close>.
\<close>

function lexRun :: "string \<Rightarrow> LexMode \<Rightarrow> nat \<times> nat \<Rightarrow> string \<Rightarrow> nat \<times> nat \<Rightarrow> string \<Rightarrow> Error + Token list" where
  "lexRun file mode start buf lc [] =
     (case mode of
        InText \<Rightarrow> Inr (textToken file start buf @ [\<lparr>Type = TokenEOF, Value = [], Pos = mkPos file lc\<rparr>])
      | InExpr d \<Rightarrow> Inl (LexError (mkPos file start) UnclosedExpr)
      | InStmt d \<Rightarrow> Inl (LexError (mkPos file start) UnclosedStmt))"
| "lexRun file mode start buf lc (c # cs) =
     (case mode of
        InText \<Rightarrow>
          if opensWith CHR ''{'' CHR ''{'' (c # cs)
          then map_sum id ((@) (textToken file start buf))
                 (lexRun file (InExpr 0) lc [] (advance CHR ''{'' (advance c lc)) (tl cs))
          else if opensWith CHR ''{'' CHR ''*'' (c # cs)
          then map_sum id ((@) (textToken file start buf))
                 (lexRun file (InStmt 0) lc [] (advance CHR ''*'' (advance c lc)) (tl cs))
          else lexRun file InText start (buf @ [c]) (advance c lc) cs
      | InExpr d \<Rightarrow>
          if d = 0 \<and> opensWith CHR ''}'' CHR ''}'' (c # cs)
          then map_sum id ((#) \<lparr>Type = TokenExpr, Value = TrimSpace buf, Pos = mkPos file start\<rparr>)
                 (lexRun file InText (advance CHR ''}'' (advance c lc)) []
                    (advance CHR ''}'' (advance c lc)) (tl cs))
          else lexRun file
                 (InExpr (if c = CHR ''{'' then d + 1 else if c = CHR ''}'' \<and> d > 0 then d - 1 else d))
                 start (buf @ [c]) (advance c lc) cs
      | InStmt d \<Rightarrow>
          if d = 0 \<and> opensWith CHR ''*'' CHR ''}'' (c # cs)
          then map_sum id ((#) \<lparr>Type = TokenStmt, Value = TrimSpace buf, Pos = mkPos file start\<rparr>)
                 (lexRun file InText (advance CHR ''}'' (advance c lc)) []
                    (advance CHR ''}'' (advance c lc)) (tl cs))
          else lexRun file
                 (InStmt (if c = CHR ''{'' then d + 1 else if c = CHR ''}'' \<and> d > 0 then d - 1 else d))
                 start (buf @ [c]) (advance c lc) cs)"
  by pat_completeness auto
termination
  by (relation "measure (\<lambda>(file, mode, start, buf, lc, input). length input)") auto

definition Tokenize :: "string \<Rightarrow> string \<Rightarrow> Error + Token list" where
  "Tokenize input file = lexRun file InText (1, 1) [] (1, 1) input"

text \<open>A template source without an opening delimiter: pure text.\<close>

fun pureText :: "string \<Rightarrow> bool" where
  "pureText [] = True"
| "pureText (c # cs) =
     (\<not> opensWith CHR ''{'' CHR ''{'' (c # cs) \<and> \<not> opensWith CHR ''{'' CHR ''*'' (c # cs) \<and> pureText cs)"

text \<open>\<open>ParseString\<close>: tokenize, then parse.\<close>

definition ParseString :: "string \<Rightarrow> string \<Rightarrow> (Error + Template) option" where
  "ParseString input file =
     (case Tokenize input file of
        Inl err \<Rightarrow> Some (Inl err)
      | Inr tokens \<Rightarrow> Parse tokens file)"

section \<open>The embedded runtime and the execution context\<close>

text \<open>
  Modelled from the spec: the execution context (\<open>context.go\<close>) is not part of the sources
  at hand, and the expression language is a third-party library. Runtime values follow
  section 9 of the specification; \<open>VModule\<close> is a macro namespace with its name and
  its exported bindings (\<open>starlarkModule\<close> of the macro registry), and \<open>VOther\<close> stands
  for every other value (floats, callables and further opaque values) with its type name
  and its truth.
\<close>

datatype Value =
    VNone
  | VBool bool
  | VInt int
  | VString string
  | VSeq "Value list"
  | VMap "(Value \<times> Value) list"
  | VModule string "(string \<times> Value) list"
  | VOther string bool

text \<open>
  Truth as in section 4.8: \<open>False\<close>, \<open>None\<close>, zero, the empty string, the empty sequence
  and the empty mapping are falsy.
\<close>

fun Truth :: "Value \<Rightarrow> bool" where
  "Truth VNone = False"
| "Truth (VBool b) = b"
| "Truth (VInt i) = (i \<noteq> 0)"
| "Truth (VString s) = (s \<noteq> [])"
| "Truth (VSeq xs) = (xs \<noteq> [])"
| "Truth (VMap kvs) = (kvs \<noteq> [])"
| "Truth (VModule n exports) = True"
| "Truth (VOther t b) = b"

text \<open>\<open>starlark.Iterate\<close>: sequences give their elements, mappings their keys, nothing else iterates.\<close>

fun Iterate :: "Value \<Rightarrow> Value list option" where
  "Iterate (VSeq xs) = Some xs"
| "Iterate (VMap kvs) = Some (map fst kvs)"
| "Iterate _ = None"

fun typeName :: "Value \<Rightarrow> string" where
  "typeName VNone = ''NoneType''"
| "typeName (VBool b) = ''bool''"
| "typeName (VInt i) = ''int''"
| "typeName (VString s) = ''string''"
| "typeName (VSeq xs) = ''list''"
| "typeName (VMap kvs) = ''dict''"
| "typeName (VModule n exports) = ''module''"
| "typeName (VOther t b) = t"

text \<open>
  An execution context holds the globals. The embedded evaluator is a parameter of the
  model, carried by the context: \<open>runtime\<close> evaluates an expression text in an environment
  to a value or to an error message, and \<open>valueString\<close> is the canonical text of a value.
\<close>

record ExecutionContext =
  globals :: "string \<rightharpoonup> Value"
  runtime :: "string \<Rightarrow> (string \<rightharpoonup> Value) \<Rightarrow> string + Value"
  valueString :: "Value \<Rightarrow> string"

text \<open>The keywords and reserved words of the expression language are not identifiers.\<close>

definition reservedWords :: "string list" where
  "reservedWords = [''and'', ''break'', ''continue'', ''def'', ''elif'', ''else'', ''for'', ''if'',
     ''in'', ''lambda'', ''load'', ''not'', ''or'', ''pass'', ''return'', ''while'',
     ''as'', ''assert'', ''async'', ''await'', ''class'', ''del'', ''except'', ''finally'',
     ''from'', ''global'', ''import'', ''is'', ''nonlocal'', ''raise'', ''try'', ''with'', ''yield'']"

definition isDigit :: "char \<Rightarrow> bool" where
  "isDigit c = (let n = (of_char c :: nat) in 48 \<le> n \<and> n \<le> 57)"

definition isIdentifier :: "string \<Rightarrow> bool" where
  "isIdentifier e = (e \<noteq> [] \<and> list_all reW e \<and> \<not> isDigit (hd e) \<and> e \<notin> set reservedWords)"

text \<open>
  Expression mode (section 4.4 and 4.8): the locals are merged atop the globals, so that
  locals shadow globals. The empty expression is rejected with an evaluation error (the
  specification does not give the text of its message). An identifier bound in the
  environment evaluates to its binding; everything else is evaluated by the runtime,
  and a failure becomes an evaluation error with file, line, expression and message.
\<close>

definition EvalExprWithLocals ::
  "ExecutionContext \<Rightarrow> string \<Rightarrow> string \<Rightarrow> nat \<Rightarrow> (string \<rightharpoonup> Value) \<Rightarrow> EvalError + Value" where
  "EvalExprWithLocals ctx expr file line locals =
     (let env = globals ctx ++ locals
      in if expr = [] then Inl (EvalError file line expr ''empty expression'')
         else if isIdentifier expr \<and> env expr \<noteq> None then Inr (the (env expr))
         else (case runtime ctx expr env of
                 Inl msg \<Rightarrow> Inl (EvalError file line expr msg)
               | Inr v \<Rightarrow> Inr v))"

text \<open>Stringified expression mode: strings are inserted verbatim, other values by their canonical text.\<close>

definition stringify :: "ExecutionContext \<Rightarrow> Value \<Rightarrow> string" where
  "stringify ctx v = (case v of VString s \<Rightarrow> s | _ \<Rightarrow> valueString ctx v)"

definition EvalExprStringWithLocals ::
  "ExecutionContext \<Rightarrow> string \<Rightarrow> string \<Rightarrow> nat \<Rightarrow> (string \<rightharpoonup> Value) \<Rightarrow> EvalError + string" where
  "EvalExprStringWithLocals ctx expr file line locals =
     map_sum id (stringify ctx) (EvalExprWithLocals ctx expr file line locals)"

section \<open>The renderer\<close>

text \<open>\<open>withLocal\<close> copies the locals and adds the loop variable.\<close>

definition withLocal :: "(string \<rightharpoonup> Value) \<Rightarrow> string \<Rightarrow> Value \<Rightarrow> (string \<rightharpoonup> Value)" where
  "withLocal locals name v = locals(name \<mapsto> v)"

text \<open>
  The renderer appends to a buffer, which is passed in and returned. \<open>renderLoop\<close> is the
  loop of \<open>renderForBlock\<close> over the elements, \<open>renderElifs\<close> the loop of \<open>renderIfBlock\<close>
  over the \<open>elif\<close> branches, ending with the \<open>else\<close> branch.
\<close>

function renderNodes :: "ExecutionContext \<Rightarrow> (string \<rightharpoonup> Value) \<Rightarrow> string \<Rightarrow> Node list \<Rightarrow> string \<Rightarrow> Error + string"
and renderNode :: "ExecutionContext \<Rightarrow> (string \<rightharpoonup> Value) \<Rightarrow> string \<Rightarrow> Node \<Rightarrow> string \<Rightarrow> Error + string"
and renderLoop :: "ExecutionContext \<Rightarrow> (string \<rightharpoonup> Value) \<Rightarrow> string \<Rightarrow> string \<Rightarrow> Node list \<Rightarrow> Value list \<Rightarrow> string \<Rightarrow> Error + string"
and renderElifs :: "ExecutionContext \<Rightarrow> (string \<rightharpoonup> Value) \<Rightarrow> string \<Rightarrow> Branch list \<Rightarrow> Node list \<Rightarrow> string \<Rightarrow> Error + string"
where
  "renderNodes ctx locals file [] buf = Inr buf"
| "renderNodes ctx locals file (node # nodes) buf =
     (case renderNode ctx locals file node buf of
        Inl err \<Rightarrow> Inl err
      | Inr buf1 \<Rightarrow> renderNodes ctx locals file nodes buf1)"
| "renderNode ctx locals file (TextNode p text) buf = Inr (buf @ text)"
| "renderNode ctx locals file (ExprNode p expr) buf =
     (case EvalExprStringWithLocals ctx expr file (Line p) locals of
        Inl err \<Rightarrow> Inl (RenderError p ''expression evaluation failed'' (Some err))
      | Inr result \<Rightarrow> Inr (buf @ result))"
| "renderNode ctx locals file (ForBlock p varName iterExpr body) buf =
     (case EvalExprWithLocals ctx iterExpr file (Line p) locals of
        Inl err \<Rightarrow> Inl (RenderError p ''for loop iterator evaluation failed'' (Some err))
      | Inr iterVal \<Rightarrow>
          (case Iterate iterVal of
             None \<Rightarrow> Inl (RenderError p (''for loop: cannot iterate over '' @ typeName iterVal) None)
           | Some elems \<Rightarrow> renderLoop ctx locals file varName body elems buf))"
| "renderNode ctx locals file (IfBlock p cond body elifs els) buf =
     (case EvalExprWithLocals ctx cond file (Line p) locals of
        Inl err \<Rightarrow> Inl (RenderError p ''if condition evaluation failed'' (Some err))
      | Inr condVal \<Rightarrow>
          if Truth condVal then renderNodes ctx locals file body buf
          else renderElifs ctx locals file elifs els buf)"
| "renderLoop ctx locals file varName body [] buf = Inr buf"
| "renderLoop ctx locals file varName body (elem # elems) buf =
     (case renderNodes ctx (withLocal locals varName elem) file body buf of
        Inl err \<Rightarrow> Inl err
      | Inr buf1 \<Rightarrow> renderLoop ctx locals file varName body elems buf1)"
| "renderElifs ctx locals file [] els buf = renderNodes ctx locals file els buf"
| "renderElifs ctx locals file (Branch cond body p # elifs) els buf =
     (case EvalExprWithLocals ctx cond file (Line p) locals of
        Inl err \<Rightarrow> Inl (RenderError p ''elif condition evaluation failed'' (Some err))
      | Inr condVal \<Rightarrow>
          if Truth condVal then renderNodes ctx locals file body buf
          else renderElifs ctx locals file elifs els buf)"
  by pat_completeness auto
termination
  by (relation "inv_image (less_than <*lex*> less_than) (\<lambda>x. case x of
         Inl (Inl (ctx, locals, file, nodes, buf)) \<Rightarrow> (size_list size nodes, 0)
       | Inl (Inr (ctx, locals, file, node, buf)) \<Rightarrow> (size node, 0)
       | Inr (Inl (ctx, locals, file, varName, body, elems, buf)) \<Rightarrow> (size_list size body, length elems + 1)
       | Inr (Inr (ctx, locals, file, elifs, els, buf)) \<Rightarrow> (size_list size elifs + size_list size els, 1 :: nat))")
     auto

text \<open>\<open>Render\<close> starts with an empty buffer and no locals; \<open>RenderString\<close> parses first.\<close>

definition Render :: "ExecutionContext \<Rightarrow> Template \<Rightarrow> Error + string" where
  "Render ctx tmpl = renderNodes ctx Map.empty (TFile tmpl) (Nodes tmpl) []"

definition RenderString :: "string \<Rightarrow> string \<Rightarrow> ExecutionContext \<Rightarrow> (Error + string) option" where
  "RenderString input file ctx =
     (case ParseString input file of
        None \<Rightarrow> None
      | Some (Inl err) \<Rightarrow> Some (Inl err)
      | Some (Inr tmpl) \<Rightarrow> Some (Render ctx tmpl))"

text \<open>
  A test context in the manner of \<open>newTestContext\<close> of the renderer tests: \<open>config\<close>,
  \<open>env\<close>, \<open>target\<close> and \<open>this\<close> are bound, the runtime evaluates nothing beyond bound
  identifiers, and the canonical text covers \<open>None\<close>, booleans and integers.
\<close>

fun showNat :: "nat \<Rightarrow> string" where
  "showNat n = (if n < 10 then [char_of (48 + n)] else showNat (n div 10) @ [char_of (48 + n mod 10)])"

definition testValueString :: "Value \<Rightarrow> string" where
  "testValueString v =
     (case v of
        VNone \<Rightarrow> ''None''
      | VBool b \<Rightarrow> (if b then ''True'' else ''False'')
      | VInt i \<Rightarrow> (if i < 0 then ''-'' @ showNat (nat (- i)) else showNat (nat i))
      | _ \<Rightarrow> ''<'' @ typeName v @ ''>'')"

definition newTestContext :: ExecutionContext where
  "newTestContext =
     \<lparr>globals = [''config'' \<mapsto> VMap [(VString ''materialized'', VString ''table'')],
                 ''env'' \<mapsto> VString ''dev'',
                 ''target'' \<mapsto> VOther ''target'' True,
                 ''this'' \<mapsto> VOther ''this'' True],
      runtime = (\<lambda>expr env. Inl (''cannot evaluate: '' @ expr)),
      valueString = testValueString\<rparr>"

section \<open>The macro registry\<close>

text \<open>
  A loaded module: its namespace, its source path and its exports. A \<open>StringDict\<close> of
  exports is an association list with distinct keys.
\<close>

record LoadedModule =
  Namespace :: string
  Path :: string
  Exports :: "(string \<times> Value) list"

record Registry =
  modules :: "string \<rightharpoonup> LoadedModule"

datatype RegistryError = RegistryError string string

definition ReservedNamespaces :: "string list" where
  "ReservedNamespaces = [''config'', ''env'', ''target'', ''this'']"

definition NewRegistry :: Registry where
  "NewRegistry = \<lparr>modules = Map.empty\<rparr>"

text \<open>The loop of \<open>Register\<close> over the reserved namespaces: the first one equal to the namespace.\<close>

fun reservedHit :: "string list \<Rightarrow> string \<Rightarrow> string option" where
  "reservedHit [] ns = None"
| "reservedHit (reserved # rest) ns = (if ns = reserved then Some reserved else reservedHit rest ns)"

definition Register :: "Registry \<Rightarrow> LoadedModule \<Rightarrow> RegistryError + Registry" where
  "Register r m =
     (case reservedHit ReservedNamespaces (Namespace m) of
        Some reserved \<Rightarrow>
          Inl (RegistryError (Namespace m) (''cannot use reserved namespace '' @ [CHR 0x27] @ reserved @ [CHR 0x27]))
      | None \<Rightarrow>
          (case modules r (Namespace m) of
             Some existing \<Rightarrow>
               Inl (RegistryError (Namespace m) (''namespace already registered by '' @ Path existing))
           | None \<Rightarrow> Inr (r\<lparr>modules := (modules r)(Namespace m \<mapsto> m)\<rparr>)))"

text \<open>
  \<open>RegisterAll\<close> stops at the first error. The registry is changed in place, so the
  modules registered before the error stay: the registry is returned with the error.
\<close>

fun RegisterAll :: "Registry \<Rightarrow> LoadedModule list \<Rightarrow> Registry \<times> RegistryError option" where
  "RegisterAll r [] = (r, None)"
| "RegisterAll r (m # ms) =
     (case Register r m of
        Inl err \<Rightarrow> (r, Some err)
      | Inr r1 \<Rightarrow> RegisterAll r1 ms)"

definition Get :: "Registry \<Rightarrow> string \<Rightarrow> LoadedModule option" where
  "Get r ns = modules r ns"

definition Has :: "Registry \<Rightarrow> string \<Rightarrow> bool" where
  "Has r ns = (modules r ns \<noteq> None)"

definition Len :: "Registry \<Rightarrow> nat" where
  "Len r = card (dom (modules r))"

text \<open>\<open>ToStarlarkDict\<close>: every namespace maps to a module value of its exports.\<close>

definition ToStarlarkDict :: "Registry \<Rightarrow> (string \<rightharpoonup> Value)" where
  "ToStarlarkDict r = (\<lambda>ns. map_option (\<lambda>m. VModule ns (Exports m)) (modules r ns))"

section \<open>The macro loader\<close>

text \<open>
  Modelled from the spec: the loader (\<open>Load\<close> of \<open>loader.go\<close>) is not part of the sources at
  hand; only its tests are. The model follows section 4.5 of the specification. The file
  system is the state of the macros directory: missing, not a directory, or a directory
  with its top-level entries in lexicographic order, as the directory listing gives them,
  each with its name, whether it is a directory, and its content. Executing a macro file
  is done by the embedded runtime, a parameter \<open>exec\<close> from path and content to an error
  message or the final bindings.
\<close>

datatype DirState = Missing | NotADirectory | Dir "(string \<times> bool \<times> string) list"

datatype LoadError = LoadError string string

definition isStarFile :: "string \<Rightarrow> bool" where
  "isStarFile name = (length name \<ge> 5 \<and> drop (length name - 5) name = ''.star'')"

definition stem :: "string \<Rightarrow> string" where
  "stem name = take (length name - 5) name"

text \<open>The namespace pattern \<open>[A-Za-z_][A-Za-z0-9_]*\<close>.\<close>

definition validNamespace :: "string \<Rightarrow> bool" where
  "validNamespace ns = (ns \<noteq> [] \<and> list_all reW ns \<and> \<not> isDigit (hd ns))"

definition exported :: "(string \<times> Value) list \<Rightarrow> (string \<times> Value) list" where
  "exported bindings = filter (\<lambda>(name, v). take 1 name \<noteq> ''_'') bindings"

definition joinPath :: "string \<Rightarrow> string \<Rightarrow> string" where
  "joinPath dir name = dir @ ''/'' @ name"

fun loadFiles :: "(string \<Rightarrow> string \<Rightarrow> string + (string \<times> Value) list) \<Rightarrow> string \<Rightarrow> (string \<times> bool \<times> string) list
    \<Rightarrow> LoadError + LoadedModule list" where
  "loadFiles exec dir [] = Inr []"
| "loadFiles exec dir ((name, isDir, content) # rest) =
     (if isDir \<or> \<not> isStarFile name then loadFiles exec dir rest
      else if \<not> validNamespace (stem name)
      then Inl (LoadError (joinPath dir name) (''invalid namespace: '' @ stem name))
      else if stem name \<in> set ReservedNamespaces
      then Inl (LoadError (joinPath dir name) (''reserved namespace: '' @ stem name))
      else (case exec (joinPath dir name) content of
              Inl msg \<Rightarrow> Inl (LoadError (joinPath dir name) msg)
            | Inr bindings \<Rightarrow>
                (case loadFiles exec dir rest of
                   Inl err \<Rightarrow> Inl err
                 | Inr ms \<Rightarrow>
                     Inr (\<lparr>Namespace = stem name, Path = joinPath dir name, Exports = exported bindings\<rparr> # ms))))"

definition Load :: "(string \<Rightarrow> string \<Rightarrow> string + (string \<times> Value) list) \<Rightarrow> string \<Rightarrow> DirState
    \<Rightarrow> LoadError + LoadedModule list" where
  "Load exec dir st =
     (case st of
        Missing \<Rightarrow> Inr []
      | NotADirectory \<Rightarrow> Inl (LoadError dir ''not a directory'')
      | Dir entries \<Rightarrow> loadFiles exec dir entries)"

text \<open>
  \<open>LoadAndRegister\<close> (from the registry's source): load, then register everything in a
  new registry; either error is returned without a registry.
\<close>

definition LoadAndRegister :: "(string \<Rightarrow> string \<Rightarrow> string + (string \<times> Value) list) \<Rightarrow> string \<Rightarrow> DirState
    \<Rightarrow> (LoadError + RegistryError) + Registry" where
  "LoadAndRegister exec macrosDir st =
     (case Load exec macrosDir st of
        Inl err \<Rightarrow> Inl (Inl err)
      | Inr ms \<Rightarrow>
          (case RegisterAll NewRegistry ms of
             (r, Some err) \<Rightarrow> Inl (Inr err)
           | (r, None) \<Rightarrow> Inr r))"

text \<open>A registry in which no reserved namespace is registered.\<close>

definition noReserved :: "Registry \<Rightarrow> bool" where
  "noReserved r = (\<forall>ns \<in> set ReservedNamespaces. modules r ns = None)"

text \<open>Directory entries none of which is a top-level \<open>.star\<close> file.\<close>

definition noStarFiles :: "(string \<times> bool \<times> string) list \<Rightarrow> bool" where
  "noStarFiles entries = list_all (\<lambda>(name, isDir, content). isDir \<or> \<not> isStarFile name) entries"

section \<open>The evaluator thread pool\<close>

text \<open>
  Modelled from the spec: the thread pool (\<open>NewThreadPool\<close>, \<open>Get\<close>, \<open>Put\<close>, \<open>Size\<close>) is not
  part of the sources at hand; only its tests are. The model follows sections 4.4, 5 and
  9 of the specification: a bounded free list with the default bound 16; \<open>Get\<close> never
  blocks and makes a fresh thread when the list is empty, otherwise it takes a pooled
  thread and names it; \<open>Put\<close> resets the thread and stores it unless the list is full, in
  which case the thread is dropped. The pool is internally synchronized, so concurrent
  calls take effect one after the other: a run is a sequence of operations. A thread is
  its name and its thread-local bindings, which a reset clears.
\<close>

record Thread =
  ThreadName :: string
  ThreadLocal :: "(string \<times> Value) list"

record ThreadPool =
  threads :: "Thread list"
  maxSize :: nat

definition DefaultPoolSize :: nat where
  "DefaultPoolSize = 16"

definition NewThreadPool :: "int \<Rightarrow> ThreadPool" where
  "NewThreadPool n = \<lparr>threads = [], maxSize = (if n \<le> 0 then DefaultPoolSize else nat n)\<rparr>"

definition PoolGet :: "ThreadPool \<Rightarrow> string \<Rightarrow> Thread \<times> ThreadPool" where
  "PoolGet pool name =
     (if threads pool = [] then (\<lparr>ThreadName = name, ThreadLocal = []\<rparr>, pool)
      else ((last (threads pool))\<lparr>ThreadName := name\<rparr>, pool\<lparr>threads := butlast (threads pool)\<rparr>))"

definition resetThread :: "Thread \<Rightarrow> Thread" where
  "resetThread t = t\<lparr>ThreadLocal := []\<rparr>"

definition PoolPut :: "ThreadPool \<Rightarrow> Thread \<Rightarrow> ThreadPool" where
  "PoolPut pool t =
     (if length (threads pool) < maxSize pool
      then pool\<lparr>threads := threads pool @ [resetThread t]\<rparr>
      else pool)"

definition Size :: "ThreadPool \<Rightarrow> nat" where
  "Size pool = length (threads pool)"

datatype PoolOp = OpGet string | OpPut Thread

fun runOps :: "ThreadPool \<Rightarrow> PoolOp list \<Rightarrow> ThreadPool" where
  "runOps pool [] = pool"
| "runOps pool (OpGet name # ops) = runOps (snd (PoolGet pool name)) ops"
| "runOps pool (OpPut t # ops) = runOps (PoolPut pool t) ops"

section \<open>Column lineage: classification of a projection item\<close>








section \<open>Verified properties\<close>

subsection \<open>Statement classification\<close>

text \<open>
  C10. For every statement token and parser position, \<open>peekStmtKind\<close> and \<open>parseStmt\<close>
  agree: when \<open>peekStmtKind\<close> returns a kind other than \<open>StmtUnknown\<close>, \<open>parseStmt\<close>
  succeeds with a statement node of exactly that kind, and \<open>parseStmt\<close> returns a parse
  error exactly when \<open>peekStmtKind\<close> returns \<open>StmtUnknown\<close>.
\<close>

theorem peekStmtKind_agrees_parseStmt:
  "(peekStmtKind (Value tok) \<noteq> StmtUnknown \<longrightarrow>
      (\<exists>stmt p'. parseStmt tok p = Inr (stmt, p') \<and> Kind stmt = peekStmtKind (Value tok)))
   \<and> ((\<exists>pe msg. parseStmt tok p = Inl (ParseError pe msg)) \<longleftrightarrow>
        peekStmtKind (Value tok) = StmtUnknown)
   \<and> ((\<exists>e. parseStmt tok p = Inl e) \<longleftrightarrow> peekStmtKind (Value tok) = StmtUnknown)"
  by (auto simp: peekStmtKind_def parseStmt_def Let_def split: option.splits)


theorem peekStmtKind_agrees_parseStmt_witness:
  "peekStmtKind ''for x in XS:'' \<noteq> StmtUnknown \<and>
   (\<exists>stmt p'. parseStmt \<lparr>Type = TokenStmt, Value = ''for x in XS:'', Pos = zeroPos\<rparr> 0 = Inr (stmt, p')
       \<and> Kind stmt = StmtFor)"
proof -
  have e: "peekStmtKind ''for x in XS:'' = StmtFor" by code_simp
  from peekStmtKind_agrees_parseStmt [of "\<lparr>Type = TokenStmt, Value = ''for x in XS:'', Pos = zeroPos\<rparr>" 0] e
  show ?thesis by simp
qed

subsection \<open>The optional trailing colon\<close>

lemma reS_isSpace: "reS c \<Longrightarrow> isSpace c"
  by (auto simp: reS_def isSpace_def)

lemma colon_classes [simp]: "\<not> reS CHR '':''" "\<not> reW CHR '':''" "\<not> isSpace CHR '':''" "reDot CHR '':''"
  by (simp_all add: reS_def reW_def isSpace_def reDot_def Let_def)

lemma TrimSpace_ends:
  assumes "TrimSpace s \<noteq> []"
  shows "\<not> isSpace (hd (TrimSpace s))" "\<not> isSpace (last (TrimSpace s))"
proof -
  let ?d = "dropWhile isSpace s"
  let ?r = "dropWhile isSpace (rev ?d)"
  from assms have r: "?r \<noteq> []" by (simp add: TrimSpace_def)
  then have "\<not> isSpace (hd ?r)" by (rule hd_dropWhile)
  with r show "\<not> isSpace (last (TrimSpace s))"
    by (simp add: TrimSpace_def last_rev)
  from r have d: "?d \<noteq> []" by (cases "dropWhile isSpace s") auto
  then have hd: "\<not> isSpace (hd ?d)" by (rule hd_dropWhile)
  have "hd (rev ?r) = hd ?d"
  proof -
    have "rev ?d = takeWhile isSpace (rev ?d) @ ?r" by simp
    then have "?d = rev ?r @ rev (takeWhile isSpace (rev ?d))"
      by (metis rev_append rev_rev_ident)
    with r show ?thesis by (metis hd_append2 rev_is_Nil_conv)
  qed
  with hd show "\<not> isSpace (hd (TrimSpace s))" by (simp add: TrimSpace_def)
qed

lemma TrimSpace_fix:
  assumes "v \<noteq> []" "\<not> isSpace (hd v)" "\<not> isSpace (last v)"
  shows "TrimSpace v = v"
proof -
  from assms have 1: "dropWhile isSpace v = v" by (cases v) auto
  from assms have "rev v \<noteq> []" "\<not> isSpace (hd (rev v))" by (auto simp: hd_rev)
  then have "dropWhile isSpace (rev v) = rev v" by (cases "rev v") auto
  with 1 show ?thesis by (simp add: TrimSpace_def)
qed

lemma TrimSpace_append_colon:
  assumes "TrimSpace s \<noteq> []"
  shows "TrimSpace (TrimSpace s @ '':'') = TrimSpace s @ '':''"
  using TrimSpace_ends(1)[OF assms] assms
  by (intro TrimSpace_fix) auto



lemma while_snoc:
  "\<not> P y \<Longrightarrow> takeWhile P (xs @ [y]) = takeWhile P xs"
  "\<not> P y \<Longrightarrow> dropWhile P (xs @ [y]) = dropWhile P xs @ [y]"
  by (induction xs) auto

lemma dropWhile_last:
  "xs \<noteq> [] \<Longrightarrow> \<not> P (last xs) \<Longrightarrow> dropWhile P xs \<noteq> [] \<and> last (dropWhile P xs) = last xs"
  by (induction xs) (auto split: if_splits)

lemma reTail_Nil [simp]: "reTail []" and reTail_colon [simp]: "reTail '':''"
  by (simp_all add: reTail_def)

lemma reTail_good: "good s \<Longrightarrow> \<not> reTail s"
proof
  assume g: "good s" and t: "reTail s"
  let ?s1 = "dropWhile reS s"
  from g have s1: "?s1 \<noteq> []" "last ?s1 = last s"
    using dropWhile_last[of s reS] by (auto simp: good_def)
  then obtain c cs where c: "?s1 = c # cs" by (cases ?s1) auto
  show False
  proof (cases "c = CHR '':''")
    case True
    with t c have d: "dropWhile reS cs = []" by (simp add: reTail_def)
    show False
    proof (cases "cs = []")
      case True
      with c \<open>c = CHR '':''\<close> s1 g show False by (simp add: good_def)
    next
      case False
      with c s1 have "last cs = last s" by simp
      with False g dropWhile_last[of cs reS] d show False by (simp add: good_def)
    qed
  next
    case False
    with t c have "dropWhile reS ?s1 = []" by (simp add: reTail_def)
    with s1 g dropWhile_last[of ?s1 reS] show False by (simp add: good_def)
  qed
qed

lemma reTail_good_colon: "good s \<Longrightarrow> \<not> reTail (s @ '':'')"
proof
  assume g: "good s" and t: "reTail (s @ '':'')"
  let ?s1 = "dropWhile reS s"
  from g have s1: "?s1 \<noteq> []" "last ?s1 = last s"
    using dropWhile_last[of s reS] by (auto simp: good_def)
  then obtain c cs where c: "?s1 = c # cs" by (cases ?s1) auto
  have dw: "dropWhile reS (s @ '':'') = c # cs @ '':''"
    using while_snoc(2)[of reS "CHR '':''" s] c by simp
  from s1 c g have nS: "\<not> reS (last (c # cs))" by (simp add: good_def)
  show False
  proof (cases "c = CHR '':''")
    case True
    with g c s1 have "cs \<noteq> []" by (auto simp: good_def)
    with nS have "dropWhile reS cs \<noteq> []" using dropWhile_last[of cs reS] by simp
    moreover from t dw True have "dropWhile reS (cs @ '':'') = []" by (simp add: reTail_def)
    ultimately show False using while_snoc(2)[of reS "CHR '':''" cs] by simp
  next
    case False
    with t dw have "dropWhile reS (c # cs @ '':'') = []" by (simp add: reTail_def)
    then show False using while_snoc(2)[of reS "CHR '':''" "c # cs"] by simp
  qed
qed

lemma reLazy_append_colon: "good s \<Longrightarrow> reLazy acc (s @ '':'') = reLazy acc s"
proof (induction s arbitrary: acc)
  case Nil
  then show ?case by (simp add: good_def)
next
  case (Cons c cs)
  show ?case
  proof (cases "cs = []")
    case True
    then show ?thesis by simp
  next
    case False
    with Cons.prems have g: "good cs" by (simp add: good_def)
    from reTail_good[OF g] reTail_good_colon[OF g] Cons.IH[OF g] show ?thesis by simp
  qed
qed

lemma good_drop: "good s \<Longrightarrow> n < length s \<Longrightarrow> good (drop n s)"
  by (simp add: good_def)

lemma reBacktrack_append_colon:
  "good r \<Longrightarrow> k < length r \<Longrightarrow> reBacktrack k (r @ '':'') = reBacktrack k r"
proof (induction k)
  case 0
  then show ?case by (simp add: reLazy_append_colon)
next
  case (Suc k)
  from Suc.prems have "good (drop (Suc k) r)" by (simp add: good_drop)
  from reLazy_append_colon[OF this] Suc show ?case by (simp split: option.splits)
qed

lemma takeWhile_lt: "s \<noteq> [] \<Longrightarrow> \<not> P (last s) \<Longrightarrow> length (takeWhile P s) < length s"
  by (induction s) (auto split: if_splits)

lemma reSpacesGroup_Nil [simp]: "reSpacesGroup [] = None" "reSpacesGroup '':'' = None"
  by (simp_all add: reSpacesGroup_def)

lemma reSpacesGroup_append_colon:
  assumes "r = [] \<or> good r"
  shows "reSpacesGroup (r @ '':'') = reSpacesGroup r"
proof (cases "r = []")
  case True
  then show ?thesis by simp
next
  case False
  with assms have g: "good r" by simp
  let ?n = "length (takeWhile reS r)"
  have tw: "takeWhile reS (r @ '':'') = takeWhile reS r"
    using while_snoc(1)[of reS "CHR '':''" r] by simp
  from g have lt: "?n < length r" using takeWhile_lt[of r reS] by (simp add: good_def)
  show ?thesis
  proof (cases "?n = 0")
    case True
    then show ?thesis using tw by (simp add: reSpacesGroup_def)
  next
    case n: False
    with lt have "1 < length r" by linarith
    then have g1: "good (drop 1 r)" using g good_drop[of r 1] by simp
    from n lt have "?n - 1 < length (drop 1 r)" unfolding length_drop by linarith
    moreover from False have "drop 1 (r @ '':'') = drop 1 r @ '':''" by (cases r) auto
    ultimately show ?thesis
      using reBacktrack_append_colon[OF g1, of "?n - 1"] n tw
      by (simp add: reSpacesGroup_def del: drop_append)
  qed
qed


lemma good_suffix: "suffix x v \<Longrightarrow> good v \<Longrightarrow> x = [] \<or> good x"
  by (auto simp: good_def suffix_def)

lemma take_kw:
  assumes "length kw = n" "CHR '':'' \<notin> set kw"
  shows "(take n (v @ '':'') = kw) = (take n v = kw)"
proof (cases "n \<le> length v")
  case True
  then show ?thesis by simp
next
  case False
  then have "take n (v @ '':'') = v @ '':''" by (cases "n - length v") auto
  moreover from assms have "v @ '':'' \<noteq> kw" by auto
  moreover have "take n v \<noteq> kw"
  proof
    assume "take n v = kw"
    then have "length (take n v) = n" using assms by simp
    with False show False by simp
  qed
  ultimately show ?thesis by simp
qed

lemma drop_kw:
  assumes "take n v = kw" "length kw = n"
  shows "drop n (v @ '':'') = drop n v @ '':''"
proof -
  from assms have "length (take n v) = n" by simp
  then have "n \<le> length v" by simp
  then show ?thesis by simp
qed

lemma ifPattern_append_colon: "good v \<Longrightarrow> ifPattern (v @ '':'') = ifPattern v"
proof -
  assume g: "good v"
  show ?thesis
  proof (cases "take 2 v = ''if''")
    case True
    have "(take 2 (v @ '':'') = ''if'') = (take 2 v = ''if'')" by (rule take_kw) simp_all
    with True have t: "take 2 (v @ '':'') = ''if''" by blast
    from True have d: "drop 2 (v @ '':'') = drop 2 v @ '':''" by (rule drop_kw) simp
    from g have "drop 2 v = [] \<or> good (drop 2 v)" by (rule good_suffix[OF suffix_drop])
    from reSpacesGroup_append_colon[OF this] True t d show ?thesis
      by (simp add: ifPattern_def del: drop_append take_append)
  next
    case False
    have "(take 2 (v @ '':'') = ''if'') = (take 2 v = ''if'')" by (rule take_kw) simp_all
    with False have "take 2 (v @ '':'') \<noteq> ''if''" by blast
    with False show ?thesis by (simp add: ifPattern_def del: drop_append take_append)
  qed
qed

lemma elifPattern_append_colon: "good v \<Longrightarrow> elifPattern (v @ '':'') = elifPattern v"
proof -
  assume g: "good v"
  show ?thesis
  proof (cases "take 4 v = ''elif''")
    case True
    have "(take 4 (v @ '':'') = ''elif'') = (take 4 v = ''elif'')" by (rule take_kw) simp_all
    with True have t: "take 4 (v @ '':'') = ''elif''" by blast
    from True have d: "drop 4 (v @ '':'') = drop 4 v @ '':''" by (rule drop_kw) simp
    from g have "drop 4 v = [] \<or> good (drop 4 v)" by (rule good_suffix[OF suffix_drop])
    from reSpacesGroup_append_colon[OF this] True t d show ?thesis
      by (simp add: elifPattern_def del: drop_append take_append)
  next
    case False
    have "(take 4 (v @ '':'') = ''elif'') = (take 4 v = ''elif'')" by (rule take_kw) simp_all
    with False have "take 4 (v @ '':'') \<noteq> ''elif''" by blast
    with False show ?thesis by (simp add: elifPattern_def del: drop_append take_append)
  qed
qed

lemma forPattern_append_colon: "good v \<Longrightarrow> forPattern (v @ '':'') = forPattern v"
proof -
  assume g: "good v"
  show ?thesis
  proof (cases "take 3 v = ''for''")
    case True
    have "(take 3 (v @ '':'') = ''for'') = (take 3 v = ''for'')" by (rule take_kw) simp_all
    with True have t: "take 3 (v @ '':'') = ''for''" by blast
    from True have d: "drop 3 (v @ '':'') = drop 3 v @ '':''" by (rule drop_kw) simp
    define r1 where "r1 = drop 3 v"
    define r2 where "r2 = dropWhile reS r1"
    define r3 where "r3 = dropWhile reW r2"
    define r4 where "r4 = dropWhile reS r3"
    have s4: "suffix r4 v"
      unfolding r4_def r3_def r2_def r1_def
      by (meson suffix_dropWhile suffix_drop suffix_order.trans)
    have "suffix (drop 2 r4) v" using s4 suffix_drop suffix_order.trans by blast
    then have x: "drop 2 r4 = [] \<or> good (drop 2 r4)" using g by (rule good_suffix)
    have e1: "takeWhile reS (r1 @ '':'') = takeWhile reS r1"
         "dropWhile reS (r1 @ '':'') = r2 @ '':''"
      using while_snoc[of reS "CHR '':''" r1] by (simp_all add: r2_def)
    have e2: "takeWhile reW (r2 @ '':'') = takeWhile reW r2"
         "dropWhile reW (r2 @ '':'') = r3 @ '':''"
      using while_snoc[of reW "CHR '':''" r2] by (simp_all add: r3_def)
    have e3: "takeWhile reS (r3 @ '':'') = takeWhile reS r3"
         "dropWhile reS (r3 @ '':'') = r4 @ '':''"
      using while_snoc[of reS "CHR '':''" r3] by (simp_all add: r4_def)
    have e4: "(take 2 (r4 @ '':'') = ''in'') = (take 2 r4 = ''in'')"
      by (rule take_kw) simp_all
    have e5: "take 2 r4 = ''in'' \<Longrightarrow> drop 2 (r4 @ '':'') = drop 2 r4 @ '':''"
      by (rule drop_kw[where kw="''in''"]) simp_all
    have L: "forPattern (v @ '':'') =
       (if takeWhile reS r1 = [] \<or> takeWhile reW r2 = [] \<or> takeWhile reS r3 = [] \<or> take 2 r4 \<noteq> ''in''
        then None
        else (case reSpacesGroup (drop 2 r4 @ '':'') of None \<Rightarrow> None
              | Some g \<Rightarrow> Some (takeWhile reW r2, g)))"
      unfolding forPattern_def Let_def t d r1_def[symmetric] e1 e2 e3 e4
      using e5 by (simp del: drop_append take_append)
    have R: "forPattern v =
       (if takeWhile reS r1 = [] \<or> takeWhile reW r2 = [] \<or> takeWhile reS r3 = [] \<or> take 2 r4 \<noteq> ''in''
        then None
        else (case reSpacesGroup (drop 2 r4) of None \<Rightarrow> None
              | Some g \<Rightarrow> Some (takeWhile reW r2, g)))"
      unfolding forPattern_def Let_def r1_def r2_def r3_def r4_def using True by simp
    show ?thesis unfolding L R reSpacesGroup_append_colon[OF x] ..
  next
    case False
    have "(take 3 (v @ '':'') = ''for'') = (take 3 v = ''for'')" by (rule take_kw) simp_all
    with False have "take 3 (v @ '':'') \<noteq> ''for''" by blast
    with False show ?thesis by (simp add: forPattern_def del: drop_append take_append)
  qed
qed


lemma parseStmt_Nil: "TrimSpace (Value tok) = [] \<Longrightarrow> \<exists>e. parseStmt tok p = Inl e"
  by (simp add: parseStmt_def forPattern_def ifPattern_def elifPattern_def)

text \<open>
  C3 (as amended). For every statement token that \<open>parseStmt\<close> accepts as a \<open>for\<close>,
  \<open>if\<close>, \<open>elif\<close> or \<open>else\<close> statement and whose trimmed text does not already end
  in a colon, the trimmed text with a colon appended is accepted too and gives the same
  statement node: the same kind, the same loop variable and the same expression.
\<close>

theorem trailing_colon_optional:
  assumes ok: "parseStmt tok p = Inr (stmt, p')"
      and kind: "Kind stmt \<in> {StmtFor, StmtIf, StmtElif, StmtElse}"
      and nc: "\<not> hasTrailingColon (TrimSpace (Value tok))"
  shows "parseStmt (tok\<lparr>Value := TrimSpace (Value tok) @ '':''\<rparr>) p = Inr (stmt, p')"
proof -
  define v where "v = TrimSpace (Value tok)"
  from ok parseStmt_Nil[of tok p] have ne: "v \<noteq> []" by (auto simp: v_def)
  then have "\<not> isSpace (last v)" unfolding v_def by (rule TrimSpace_ends(2))
  with ne nc have g: "good v" by (auto simp: good_def hasTrailingColon_def v_def dest: reS_isSpace)
  from ne have tr: "TrimSpace (v @ '':'') = v @ '':''" unfolding v_def by (rule TrimSpace_append_colon)
  from nc have n1: "v \<noteq> ''else:''" by (auto simp: hasTrailingColon_def v_def)
  from ok kind have n2: "v \<noteq> ''endfor''" "v \<noteq> ''endif''"
    by (auto simp: parseStmt_def v_def Let_def)
  show ?thesis
    using ok n1 n2 tr forPattern_append_colon[OF g] ifPattern_append_colon[OF g]
      elifPattern_append_colon[OF g]
    by (auto simp: parseStmt_def v_def[symmetric] Let_def split: option.splits if_splits)
qed

text \<open>
  C3 as stated fails: \<open>endfor\<close> and \<open>endif\<close> are accepted only without a colon; a
  second colon after \<open>if x:\<close> becomes part of the captured expression; and a colon
  after the white space of \<open>else \<close> is rejected.
\<close>

theorem trailing_colon_counterexample:
  "parseStmt \<lparr>Type = TokenStmt, Value = ''endfor'', Pos = zeroPos\<rparr> 0
     = Inr (\<lparr>pos = zeroPos, Kind = StmtEndFor, VarName = [], Expr = []\<rparr>, 1)
   \<and> parseStmt \<lparr>Type = TokenStmt, Value = ''endfor:'', Pos = zeroPos\<rparr> 0
     = Inl (ParseError zeroPos ''invalid statement syntax: endfor:'')
   \<and> parseStmt \<lparr>Type = TokenStmt, Value = ''endif'', Pos = zeroPos\<rparr> 0
     = Inr (\<lparr>pos = zeroPos, Kind = StmtEndIf, VarName = [], Expr = []\<rparr>, 1)
   \<and> parseStmt \<lparr>Type = TokenStmt, Value = ''endif:'', Pos = zeroPos\<rparr> 0
     = Inl (ParseError zeroPos ''invalid statement syntax: endif:'')
   \<and> parseStmt \<lparr>Type = TokenStmt, Value = ''if x:'', Pos = zeroPos\<rparr> 0
     = Inr (\<lparr>pos = zeroPos, Kind = StmtIf, VarName = [], Expr = ''x''\<rparr>, 1)
   \<and> parseStmt \<lparr>Type = TokenStmt, Value = ''if x::'', Pos = zeroPos\<rparr> 0
     = Inr (\<lparr>pos = zeroPos, Kind = StmtIf, VarName = [], Expr = ''x:''\<rparr>, 1)
   \<and> parseStmt \<lparr>Type = TokenStmt, Value = ''else '', Pos = zeroPos\<rparr> 0
     = Inr (\<lparr>pos = zeroPos, Kind = StmtElse, VarName = [], Expr = []\<rparr>, 1)
   \<and> parseStmt \<lparr>Type = TokenStmt, Value = ''else :'', Pos = zeroPos\<rparr> 0
     = Inl (ParseError zeroPos ''invalid statement syntax: else :'')"
  by code_simp

theorem trailing_colon_optional_witness:
  "parseStmt \<lparr>Type = TokenStmt, Value = '' for x in items '', Pos = zeroPos\<rparr> 0
     = Inr (\<lparr>pos = zeroPos, Kind = StmtFor, VarName = ''x'', Expr = ''items''\<rparr>, 1)
   \<and> \<not> hasTrailingColon (TrimSpace '' for x in items '')
   \<and> parseStmt \<lparr>Type = TokenStmt, Value = ''for x in items:'', Pos = zeroPos\<rparr> 0
     = Inr (\<lparr>pos = zeroPos, Kind = StmtFor, VarName = ''x'', Expr = ''items''\<rparr>, 1)"
proof -
  let ?tok = "\<lparr>Type = TokenStmt, Value = '' for x in items '', Pos = zeroPos\<rparr>"
  let ?stmt = "\<lparr>pos = zeroPos, Kind = StmtFor, VarName = ''x'', Expr = ''items''\<rparr>"
  have a: "parseStmt ?tok 0 = Inr (?stmt, 1)" by code_simp
  have b: "\<not> hasTrailingColon (TrimSpace (Value ?tok))" by code_simp
  have c: "TrimSpace (Value ?tok) @ '':'' = ''for x in items:''" by code_simp
  from trailing_colon_optional[OF a _ b] c a b show ?thesis by simp
qed

subsection \<open>Unmatched blocks\<close>

declare parseNodes.simps(2) [simp del] parseForBlock.simps(2) [simp del]
  parseIfBlock.simps(2) [simp del] parseIfChain.simps(2) [simp del]

lemma parseNodes_end:
  "atEnd ts p \<Longrightarrow> parseNodes (Suc f) ts stopOn p acc = Some (Inr (acc, p))"
  by (auto simp: parseNodes.simps(2) atEnd_def Let_def)

lemma parseNodes_plain:
  assumes "p < length ts" "Type (ts ! p) = TokenText \<or> Type (ts ! p) = TokenExpr"
  shows "parseNodes (Suc f) ts stopOn p acc = parseNodes f ts stopOn (p + 1) (acc @ [plainNode (ts ! p)])"
  using assms by (auto simp: parseNodes.simps(2) current_def plainNode_def Let_def)


















subsection \<open>Rendering\<close>

declare showNat.simps [simp del]

declare lexRun.simps [simp del]

lemma opensWith_snoc_pure:
  "pureText (c # cs) \<Longrightarrow> \<not> opensWith CHR ''{'' CHR ''{'' (c # cs) \<and> \<not> opensWith CHR ''{'' CHR ''*'' (c # cs)"
  by simp

lemma lexRun_pure:
  "pureText cs \<Longrightarrow>
   lexRun file InText start buf lc cs
     = Inr (textToken file start (buf @ cs)
            @ [\<lparr>Type = TokenEOF, Value = [], Pos = mkPos file (foldl (\<lambda>lc c. advance c lc) lc cs)\<rparr>])"
proof (induction cs arbitrary: buf lc)
  case Nil
  then show ?case by (simp add: lexRun.simps)
next
  case (Cons c cs)
  from Cons.prems have o: "\<not> opensWith CHR ''{'' CHR ''{'' (c # cs)" "\<not> opensWith CHR ''{'' CHR ''*'' (c # cs)"
    and p: "pureText cs" by simp_all
  have "lexRun file InText start buf lc (c # cs) = lexRun file InText start (buf @ [c]) (advance c lc) cs"
    using o by (simp add: lexRun.simps)
  with Cons.IH[OF p, of "buf @ [c]" "advance c lc"] show ?case by simp
qed

lemma Parse_text:
  "Parse [\<lparr>Type = TokenText, Value = v, Pos = p\<rparr>, \<lparr>Type = TokenEOF, Value = [], Pos = q\<rparr>] file
     = Some (Inr \<lparr>Nodes = [TextNode p v], TFile = file\<rparr>)"
proof -
  let ?ts = "[\<lparr>Type = TokenText, Value = v, Pos = p\<rparr>, \<lparr>Type = TokenEOF, Value = [], Pos = q\<rparr>]"
  have "parseNodes (Suc (Suc 4)) ?ts [] 0 [] = parseNodes (Suc 4) ?ts [] 1 [plainNode (?ts ! 0)]"
    by (subst parseNodes_plain) simp_all
  also have "\<dots> = Some (Inr ([plainNode (?ts ! 0)], 1))"
    by (rule parseNodes_end) (simp add: atEnd_def current_def)
  finally show ?thesis by (simp add: Parse_def plainNode_def eval_nat_numeral)
qed

lemma Parse_eof:
  "Parse [\<lparr>Type = TokenEOF, Value = [], Pos = q\<rparr>] file = Some (Inr \<lparr>Nodes = [], TFile = file\<rparr>)"
proof -
  let ?ts = "[\<lparr>Type = TokenEOF, Value = [], Pos = q\<rparr>]"
  have "parseNodes (Suc 3) ?ts [] 0 [] = Some (Inr ([], 0))"
    by (rule parseNodes_end) (simp add: atEnd_def current_def)
  then show ?thesis by (simp add: Parse_def eval_nat_numeral)
qed

text \<open>
  C9 (as amended). A template source that contains no opening delimiter \<open>{{\<close> or
  \<open>{*\<close> renders to itself, in every execution context and so in an empty one.
\<close>

theorem render_pure_text_identity:
  "pureText input \<Longrightarrow> RenderString input fname ctx = Some (Inr input)"
proof -
  assume "pureText input"
  from lexRun_pure[OF this, of fname "(1, 1)" "[]" "(1, 1)"]
  show ?thesis
    by (cases "input = []")
       (simp_all add: RenderString_def ParseString_def Tokenize_def textToken_def Parse_text Parse_eof
          Render_def)
qed

theorem render_pure_text_identity_witness:
  "pureText ''SELECT * FROM users''
   \<and> RenderString ''SELECT * FROM users'' ''test.sql'' newTestContext = Some (Inr ''SELECT * FROM users'')"
proof -
  have a: "pureText ''SELECT * FROM users''" by code_simp
  from render_pure_text_identity[OF a, of "''test.sql''" newTestContext] a show ?thesis by simp
qed








lemma tokenize_for:
  "Tokenize ''{* for x in XS: *}{{ x }}{* endfor *}'' f
     = Inr [\<lparr>Type = TokenStmt, Value = ''for x in XS:'', Pos = mkPos f (1, 1)\<rparr>,
            \<lparr>Type = TokenExpr, Value = ''x'', Pos = mkPos f (1, 19)\<rparr>,
            \<lparr>Type = TokenStmt, Value = ''endfor'', Pos = mkPos f (1, 26)\<rparr>,
            \<lparr>Type = TokenEOF, Value = [], Pos = mkPos f (1, 38)\<rparr>]"
  by (simp add: Tokenize_def lexRun.simps opensWith_def advance_def TrimSpace_def isSpace_def
        textToken_def eval_nat_numeral)

lemma parseStmt_for_x_XS:
  "parseStmt \<lparr>Type = t, Value = ''for x in XS:'', Pos = q\<rparr> p
     = Inr (\<lparr>pos = q, Kind = StmtFor, VarName = ''x'', Expr = ''XS''\<rparr>, p + 1)"
proof -
  have "TrimSpace ''for x in XS:'' = ''for x in XS:''" by code_simp
  moreover have "forPattern ''for x in XS:'' = Some (''x'', ''XS'')" by code_simp
  ultimately show ?thesis by (simp add: parseStmt_def)
qed

lemma parseStmt_endfor:
  "parseStmt \<lparr>Type = t, Value = ''endfor'', Pos = q\<rparr> p
     = Inr (\<lparr>pos = q, Kind = StmtEndFor, VarName = [], Expr = []\<rparr>, p + 1)"
proof -
  have "TrimSpace ''endfor'' = ''endfor''" by code_simp
  then show ?thesis by (simp add: parseStmt_def)
qed

lemma peek_endfor: "peekStmtKind ''endfor'' = StmtEndFor" and peek_for: "peekStmtKind ''for x in XS:'' = StmtFor"
  by code_simp+

lemma Parse_for_x_XS:
  "Parse [\<lparr>Type = TokenStmt, Value = ''for x in XS:'', Pos = q1\<rparr>,
          \<lparr>Type = TokenExpr, Value = ''x'', Pos = q2\<rparr>,
          \<lparr>Type = TokenStmt, Value = ''endfor'', Pos = q3\<rparr>,
          \<lparr>Type = TokenEOF, Value = [], Pos = q4\<rparr>] f
     = Some (Inr \<lparr>Nodes = [ForBlock q1 ''x'' ''XS'' [ExprNode q2 ''x'']], TFile = f\<rparr>)"
  by (simp add: Parse_def eval_nat_numeral parseNodes.simps(2) parseForBlock.simps(2)
        current_def containsKind_def atEnd_def parseStmt_for_x_XS parseStmt_endfor
        peek_endfor peek_for)

lemma ident_x: "isIdentifier ''x''" and ident_XS: "isIdentifier ''XS''"
  by code_simp+

lemma renderLoop_x:
  "renderLoop ctx locals f ''x'' [ExprNode q ''x''] xs buf
     = Inr (buf @ concat (map (stringify ctx) xs))"
proof (induction xs arbitrary: buf)
  case Nil
  then show ?case by simp
next
  case (Cons e xs)
  have "EvalExprStringWithLocals ctx ''x'' f (Line q) (withLocal locals ''x'' e) = Inr (stringify ctx e)"
    by (simp add: EvalExprStringWithLocals_def EvalExprWithLocals_def withLocal_def ident_x)
  then show ?case using Cons.IH by simp
qed

text \<open>
  C1. When \<open>XS\<close> is bound to a sequence \<open>xs\<close> in the globals of the execution context,
  rendering \<open>{* for x in XS: *}{{ x }}{* endfor *}\<close> succeeds and returns the
  concatenation, in order, of the stringifications of the elements of \<open>xs\<close>; for the
  empty sequence the output is the empty string.
\<close>

theorem render_for_concat:
  "(globals ctx ''XS'' = Some (VSeq xs) \<longrightarrow>
      RenderString ''{* for x in XS: *}{{ x }}{* endfor *}'' fname ctx
        = Some (Inr (concat (map (stringify ctx) xs))))
   \<and> (globals ctx ''XS'' = Some (VSeq []) \<longrightarrow>
      RenderString ''{* for x in XS: *}{{ x }}{* endfor *}'' fname ctx = Some (Inr []))"
proof -
  have "RenderString ''{* for x in XS: *}{{ x }}{* endfor *}'' fname ctx
      = Some (Inr (concat (map (stringify ctx) ys)))"
    if b: "globals ctx ''XS'' = Some (VSeq ys)" for ys
  proof -
    from b have "EvalExprWithLocals ctx ''XS'' fname l Map.empty = Inr (VSeq ys)" for l
      by (simp add: EvalExprWithLocals_def ident_XS)
    then show ?thesis
      by (simp add: RenderString_def ParseString_def tokenize_for Parse_for_x_XS Render_def
            renderLoop_x)
  qed
  from this[of xs] this[of "[]"] show ?thesis by simp
qed

theorem render_for_concat_witness:
  "globals (newTestContext\<lparr>globals := (globals newTestContext)(''XS'' \<mapsto> VSeq [VInt 1, VInt 2, VInt 3])\<rparr>) ''XS''
     = Some (VSeq [VInt 1, VInt 2, VInt 3])
   \<and> RenderString ''{* for x in XS: *}{{ x }}{* endfor *}'' ''test.sql''
        (newTestContext\<lparr>globals := (globals newTestContext)(''XS'' \<mapsto> VSeq [VInt 1, VInt 2, VInt 3])\<rparr>)
     = Some (Inr ''123'')"
proof -
  let ?ctx = "newTestContext\<lparr>globals := (globals newTestContext)(''XS'' \<mapsto> VSeq [VInt 1, VInt 2, VInt 3])\<rparr>"
  have a: "globals ?ctx ''XS'' = Some (VSeq [VInt 1, VInt 2, VInt 3])" by simp
  have b: "concat (map (stringify ?ctx) [VInt 1, VInt 2, VInt 3]) = ''123''" by code_simp
  from render_for_concat[of ?ctx "[VInt 1, VInt 2, VInt 3]" "''test.sql''"] a b
  show ?thesis by simp
qed



text \<open>
  C9 as stated fails for templates that have no block but an expression: \<open>{{ }}\<close> fails
  to render in a context without any binding, and \<open>{{ env }}\<close> renders to the value of
  \<open>env\<close>, not to the template source.
\<close>

theorem render_expression_not_identity_counterexample:
  "RenderString ''{{ }}'' ''test.sql'' (newTestContext\<lparr>globals := Map.empty\<rparr>)
     = Some (Inl (RenderError \<lparr>File = ''test.sql'', Line = 1, Column = 1\<rparr>
                    ''expression evaluation failed''
                    (Some (EvalError ''test.sql'' 1 [] ''empty expression''))))
   \<and> RenderString ''{{ env }}'' ''test.sql'' newTestContext = Some (Inr ''dev'')"
  by code_simp

subsection \<open>Macro registry and loader\<close>

lemma reservedHit_iff: "(reservedHit rs ns \<noteq> None) = (ns \<in> set rs)"
  by (induction rs) auto

lemma reservedHit_Some: "reservedHit rs ns = Some x \<Longrightarrow> x = ns"
  by (induction rs) (auto split: if_splits)

lemma Register_reserved:
  "Namespace m \<in> set ReservedNamespaces \<Longrightarrow> \<exists>msg. Register r m = Inl (RegistryError (Namespace m) msg)"
  using reservedHit_iff[of ReservedNamespaces "Namespace m"]
  by (auto simp: Register_def split: option.splits)

lemma Register_noReserved:
  "noReserved r \<Longrightarrow> Register r m = Inr r1 \<Longrightarrow> noReserved r1"
  using reservedHit_iff[of ReservedNamespaces "Namespace m"]
  by (auto simp: Register_def noReserved_def split: option.splits)

lemma RegisterAll_noReserved:
  "noReserved r \<Longrightarrow> noReserved (fst (RegisterAll r ms))"
proof (induction ms arbitrary: r)
  case Nil
  then show ?case by simp
next
  case (Cons m ms)
  then show ?case by (auto split: sum.splits dest: Register_noReserved)
qed

lemma NewRegistry_noReserved: "noReserved NewRegistry"
  by (simp add: noReserved_def NewRegistry_def)

text \<open>
  C6. For every module (whatever it exports) and every registry, registering the module
  under one of the reserved namespaces \<open>config\<close>, \<open>env\<close>, \<open>target\<close>, \<open>this\<close> fails with a
  registry error naming the namespace. Hence no registry built by \<open>RegisterAll\<close> from a
  new one holds a reserved namespace, its projection \<open>ToStarlarkDict\<close> has no reserved
  key, and merging the projection into any globals leaves the engine's bindings of the
  reserved names as they are.
\<close>

theorem reserved_namespaces_rejected:
  "(Namespace m \<in> set ReservedNamespaces \<longrightarrow>
      (\<exists>msg. Register r m = Inl (RegistryError (Namespace m) msg)))
   \<and> (ns \<in> set ReservedNamespaces \<longrightarrow>
        ToStarlarkDict (fst (RegisterAll NewRegistry ms)) ns = None
      \<and> (g ++ ToStarlarkDict (fst (RegisterAll NewRegistry ms))) ns = g ns)"
  using Register_reserved[of m r] RegisterAll_noReserved[OF NewRegistry_noReserved, of ms]
  by (auto simp: ToStarlarkDict_def noReserved_def map_add_def)

theorem reserved_namespaces_rejected_witness:
  "''config'' \<in> set ReservedNamespaces \<and> ''env'' \<in> set ReservedNamespaces
   \<and> Register NewRegistry \<lparr>Namespace = ''config'', Path = ''/macros/config.star'',
          Exports = [(''f'', VString ''conflict'')]\<rparr>
       = Inl (RegistryError ''config''
               (''cannot use reserved namespace '' @ [CHR 0x27] @ ''config'' @ [CHR 0x27]))
   \<and> (globals newTestContext
        ++ ToStarlarkDict (fst (RegisterAll NewRegistry
             [\<lparr>Namespace = ''utils'', Path = ''/macros/utils.star'', Exports = []\<rparr>,
              \<lparr>Namespace = ''env'', Path = ''/macros/env.star'', Exports = []\<rparr>]))) ''env''
       = Some (VString ''dev'')"
proof -
  let ?m = "\<lparr>Namespace = ''config'', Path = ''/macros/config.star'', Exports = [(''f'', VString ''conflict'')]\<rparr>"
  let ?ms = "[\<lparr>Namespace = ''utils'', Path = ''/macros/utils.star'', Exports = []\<rparr>,
              \<lparr>Namespace = ''env'', Path = ''/macros/env.star'', Exports = []\<rparr>]"
  have a: "''config'' \<in> set ReservedNamespaces" "''env'' \<in> set ReservedNamespaces"
    by (simp_all add: ReservedNamespaces_def)
  have b: "Register NewRegistry ?m = Inl (RegistryError ''config''
      (''cannot use reserved namespace '' @ [CHR 0x27] @ ''config'' @ [CHR 0x27]))"
    by (simp add: Register_def ReservedNamespaces_def)
  have c: "globals newTestContext ''env'' = Some (VString ''dev'')"
    by (simp add: newTestContext_def)
  from reserved_namespaces_rejected[of ?m NewRegistry "''env''" ?ms "globals newTestContext"] a b c
  show ?thesis by simp
qed

lemma loadFiles_none: "noStarFiles entries \<Longrightarrow> loadFiles exec dir entries = Inr []"
  by (induction entries) (auto simp: noStarFiles_def)

lemma Len_New: "Len NewRegistry = 0"
  by (simp add: Len_def NewRegistry_def)

text \<open>
  C7. Loading from a macros directory that does not exist gives no modules and no error,
  and \<open>LoadAndRegister\<close> gives the empty registry; the same holds for an existing
  directory that is empty or has no top-level \<open>.star\<close> file. The empty registry has
  size 0.
\<close>

theorem load_missing_or_empty:
  "Load exec dir Missing = Inr []
   \<and> LoadAndRegister exec dir Missing = Inr NewRegistry
   \<and> Load exec dir (Dir []) = Inr []
   \<and> LoadAndRegister exec dir (Dir []) = Inr NewRegistry
   \<and> (noStarFiles entries \<longrightarrow>
        Load exec dir (Dir entries) = Inr []
      \<and> LoadAndRegister exec dir (Dir entries) = Inr NewRegistry)
   \<and> Len NewRegistry = 0"
  by (simp add: Load_def LoadAndRegister_def loadFiles_none Len_New)

theorem load_missing_or_empty_witness:
  "noStarFiles [(''README.md'', False, ''macros''), (''old.star'', True, [])]
   \<and> LoadAndRegister (\<lambda>path content. Inr []) ''macros''
        (Dir [(''README.md'', False, ''macros''), (''old.star'', True, [])]) = Inr NewRegistry"
proof -
  have a: "noStarFiles [(''README.md'', False, ''macros''), (''old.star'', True, [])]"
    by (simp add: noStarFiles_def isStarFile_def)
  from load_missing_or_empty[of "\<lambda>path content. Inr []" "''macros''"
      "[(''README.md'', False, ''macros''), (''old.star'', True, [])]"] a
  show ?thesis by simp
qed

subsection \<open>The thread pool\<close>

lemma PoolGet_inv:
  "Size pool \<le> maxSize pool \<Longrightarrow>
   Size (snd (PoolGet pool name)) \<le> maxSize pool \<and> maxSize (snd (PoolGet pool name)) = maxSize pool"
  by (auto simp: PoolGet_def Size_def)

lemma PoolPut_inv:
  "Size pool \<le> maxSize pool \<Longrightarrow>
   Size (PoolPut pool t) \<le> maxSize pool \<and> maxSize (PoolPut pool t) = maxSize pool"
  by (simp add: PoolPut_def Size_def)

lemma runOps_inv:
  "Size pool \<le> maxSize pool \<Longrightarrow>
   Size (runOps pool ops) \<le> maxSize pool \<and> maxSize (runOps pool ops) = maxSize pool"
proof (induction ops arbitrary: pool)
  case Nil
  then show ?case by simp
next
  case (Cons op ops)
  show ?case
  proof (cases op)
    case (OpGet name)
    from PoolGet_inv[OF Cons.prems, of name] Cons.IH[of "snd (PoolGet pool name)"] OpGet
    show ?thesis by simp
  next
    case (OpPut t)
    from PoolPut_inv[OF Cons.prems, of t] Cons.IH[of "PoolPut pool t"] OpPut
    show ?thesis by simp
  qed
qed

text \<open>
  C8. After any sequence of \<open>Get\<close> and \<open>Put\<close> operations on a pool made by
  \<open>NewThreadPool\<close>, and on any pool that starts within its bound, the number of threads
  held does not exceed the bound; \<open>Put\<close> on a full pool leaves the pool as it is, and on
  a pool that is not full it stores the thread; a pool made with size 0 has the bound 16.
\<close>

theorem pool_never_exceeds_bound:
  "Size (runOps (NewThreadPool n) ops) \<le> maxSize (NewThreadPool n)
   \<and> (Size pool \<le> maxSize pool \<longrightarrow> Size (runOps pool ops) \<le> maxSize pool)
   \<and> (Size pool \<ge> maxSize pool \<longrightarrow> PoolPut pool t = pool)
   \<and> (Size pool < maxSize pool \<longrightarrow> Size (PoolPut pool t) = Size pool + 1)
   \<and> maxSize (NewThreadPool 0) = 16
   \<and> (n > 0 \<longrightarrow> maxSize (NewThreadPool n) = nat n)"
proof -
  have "Size (NewThreadPool n) \<le> maxSize (NewThreadPool n)"
    by (simp add: NewThreadPool_def Size_def)
  from runOps_inv[OF this, of ops] runOps_inv[of pool ops] show ?thesis
    by (auto simp: PoolPut_def Size_def NewThreadPool_def DefaultPoolSize_def)
qed

theorem pool_never_exceeds_bound_witness:
  "Size (runOps (NewThreadPool 2)
      [OpGet ''test'', OpGet ''test'', OpGet ''test'',
       OpPut \<lparr>ThreadName = ''test'', ThreadLocal = []\<rparr>,
       OpPut \<lparr>ThreadName = ''test'', ThreadLocal = []\<rparr>,
       OpPut \<lparr>ThreadName = ''test'', ThreadLocal = []\<rparr>]) = 2
   \<and> Size (runOps (NewThreadPool 2)
      [OpGet ''test'', OpGet ''test'', OpGet ''test'',
       OpPut \<lparr>ThreadName = ''test'', ThreadLocal = []\<rparr>,
       OpPut \<lparr>ThreadName = ''test'', ThreadLocal = []\<rparr>,
       OpPut \<lparr>ThreadName = ''test'', ThreadLocal = []\<rparr>]) \<le> maxSize (NewThreadPool 2)
   \<and> (2::int) > 0 \<and> maxSize (NewThreadPool 2) = 2"
proof -
  let ?ops = "[OpGet ''test'', OpGet ''test'', OpGet ''test'',
       OpPut \<lparr>ThreadName = ''test'', ThreadLocal = []\<rparr>,
       OpPut \<lparr>ThreadName = ''test'', ThreadLocal = []\<rparr>,
       OpPut \<lparr>ThreadName = ''test'', ThreadLocal = []\<rparr>]"
  have a: "Size (runOps (NewThreadPool 2) ?ops) = 2"
    by (simp add: NewThreadPool_def PoolGet_def PoolPut_def Size_def)
  from pool_never_exceeds_bound[of 2 ?ops] a show ?thesis by simp
qed

subsection \<open>Lineage classification\<close>




end
